theory Spec2Isabelle
  imports Main "HOL-Library.AList"
begin

section \<open>The front end of codis: route table and configuration loader (cmd/fe/main.go)\<close>

subsection \<open>Go values\<close>

text \<open>
  A Go map is an association list whose keys are pairwise distinct. The order of the list is
  the order in which a \<^verbatim>\<open>range\<close> loop visits the entries (Go leaves it unspecified, so
  results are stated for every order). \<^verbatim>\<open>m[k] = v\<close> is \<^const>\<open>AList.update\<close>, \<^verbatim>\<open>m[k]\<close> is
  \<^const>\<open>map_of\<close> (\<open>None\<close> is the zero value of a pointer type, \<^verbatim>\<open>nil\<close>), \<^verbatim>\<open>len(m)\<close> is
  \<^const>\<open>length\<close>. A map variable that is \<^verbatim>\<open>nil\<close> is \<open>None\<close> of the option type around it.
\<close>

type_synonym ('k, 'v) gomap = "('k \<times> 'v) list"

text \<open>A \<^verbatim>\<open>time.Time\<close> is its instant; \<^verbatim>\<open>Equal\<close> compares instants. The zero value is instant 0.\<close>

type_synonym time = int

text \<open>An \<^verbatim>\<open>error\<close> value; the \<^verbatim>\<open>nil\<close> error is \<open>None\<close> of \<open>error option\<close>.\<close>

datatype error = Cause string | Traced error

text \<open>
  Modelled from the spec: \<^verbatim>\<open>errors.Trace\<close> (pkg/utils/errors) is not part of the sources at
  hand. The spec has the failure "carrying the underlying cause" and the unchanged case returning
  "nothing changed (not an error)": an error is wrapped around its cause, \<^verbatim>\<open>nil\<close> stays \<^verbatim>\<open>nil\<close>.
\<close>

fun Trace :: "error option \<Rightarrow> error option" where
  "Trace None = None"
| "Trace (Some err) = Some (Traced err)"

text \<open>What a call yields: it returns, or it panics (a nil pointer is dereferenced).\<close>

datatype 'a outcome = Return 'a | Panic

subsection \<open>ConfigLoader\<close>

text \<open>The element type of \<^verbatim>\<open>list\<close> in \<^verbatim>\<open>Load\<close>; the list holds pointers, \<open>None\<close> is \<^verbatim>\<open>nil\<close>
  (what \<^verbatim>\<open>json.Unmarshal\<close> stores for a \<^verbatim>\<open>null\<close> element).\<close>

record entry =
  Name :: string
  Dashboard :: string

text \<open>
  The collaborators of the loader, as the calls answer during one \<^verbatim>\<open>Reload\<close>:
  \<^verbatim>\<open>os.Stat(path)\<close> (the \<^verbatim>\<open>FileInfo\<close> reduced to its \<^verbatim>\<open>ModTime()\<close>), \<^verbatim>\<open>ioutil.ReadFile(path)\<close> and
  \<^verbatim>\<open>json.Unmarshal(b, &list)\<close>.
\<close>

record world =
  os_Stat :: "string \<Rightarrow> error + time"
  ioutil_ReadFile :: "string \<Rightarrow> error + string"
  json_Unmarshal :: "string \<Rightarrow> error + entry option list"

text \<open>The calls to the collaborators a function makes, in program order.\<close>

datatype call = CallStat | CallReadFile | CallUnmarshal

record ConfigLoader =
  last_time :: time

type_synonym load_result = "(string, string) gomap option \<times> error option"

text \<open>The loop of \<^verbatim>\<open>Load\<close>: \<^verbatim>\<open>for _, e := range list { m[e.Name] = e.Dashboard }\<close>.\<close>

fun Load_loop :: "entry option list \<Rightarrow> (string, string) gomap \<Rightarrow> (string, string) gomap outcome" where
  "Load_loop [] m = Return m"
| "Load_loop (None # rest) m = Panic"
| "Load_loop (Some e # rest) m = Load_loop rest (AList.update (Name e) (Dashboard e) m)"

definition Load :: "world \<Rightarrow> string \<Rightarrow> load_result outcome \<times> call list" where
  "Load w path =
     (case ioutil_ReadFile w path of
        Inl err \<Rightarrow> (Return (None, Trace (Some err)), [CallReadFile])
      | Inr b \<Rightarrow>
          (case json_Unmarshal w b of
             Inl err \<Rightarrow> (Return (None, Trace (Some err)), [CallReadFile, CallUnmarshal])
           | Inr list \<Rightarrow>
               (case Load_loop list [] of
                  Panic \<Rightarrow> (Panic, [CallReadFile, CallUnmarshal])
                | Return m \<Rightarrow> (Return (Some m, None), [CallReadFile, CallUnmarshal]))))"

text \<open>\<^verbatim>\<open>Reload\<close> returns its result, the loader as the call leaves it, and the calls it made.\<close>

definition Reload :: "world \<Rightarrow> ConfigLoader \<Rightarrow> string \<Rightarrow> load_result outcome \<times> ConfigLoader \<times> call list" where
  "Reload w l path =
     (case os_Stat w path of
        Inl err \<Rightarrow> (Return (None, Trace (Some err)), l, [CallStat])
      | Inr mtime \<Rightarrow>
          if mtime = last_time l then (Return (None, Trace None), l, [CallStat])
          else
            (case Load w path of
               (Panic, cs) \<Rightarrow> (Panic, l, CallStat # cs)
             | (Return (m, Some err), cs) \<Rightarrow> (Return (None, Some err), l, CallStat # cs)
             | (Return (m, None), cs) \<Rightarrow> (Return (m, None), l\<lparr>last_time := mtime\<rparr>, CallStat # cs)))"

subsection \<open>ReverseProxy\<close>

record URL =
  Scheme :: string
  Host :: string

text \<open>The process-wide transport that \<^verbatim>\<open>init\<close> builds and stores in \<^verbatim>\<open>roundTripper\<close>.\<close>

datatype RoundTripper = DialTimeoutTransport

definition roundTripper :: "RoundTripper option" where
  "roundTripper = Some DialTimeoutTransport"

text \<open>A \<^verbatim>\<open>httputil.ReverseProxy\<close>: the URL its director rewrites requests to, and its transport.\<close>

record httputil_ReverseProxy =
  target :: URL
  Transport :: "RoundTripper option"

definition NewSingleHostReverseProxy :: "URL \<Rightarrow> httputil_ReverseProxy" where
  "NewSingleHostReverseProxy u = \<lparr>target = u, Transport = None\<rparr>"

text \<open>The three statements of \<^verbatim>\<open>Update\<close> that build \<^verbatim>\<open>p\<close> from \<^verbatim>\<open>host\<close>.\<close>

definition new_proxy :: "string \<Rightarrow> httputil_ReverseProxy" where
  "new_proxy host =
     (let u = \<lparr>Scheme = ''http'', Host = host\<rparr>;
          p = NewSingleHostReverseProxy u
      in p\<lparr>Transport := roundTripper\<rparr>)"

record ReverseProxy =
  routes :: "(string, httputil_ReverseProxy) gomap option"

text \<open>
  The embedded \<^verbatim>\<open>sync.Mutex\<close> holds no data. Each method locks it on entry and unlocks it at its
  return, so between calls it is free and a call, run on its own, finds it free; the methods
  below are these runs, as functions of the field \<^verbatim>\<open>routes\<close>. Where the lock is taken and
  released inside \<^verbatim>\<open>Update\<close> is the subject of the statement-by-statement model further down.
\<close>

text \<open>The loop of \<^verbatim>\<open>Update\<close> over the entries of its argument, on the map that \<^verbatim>\<open>make\<close> returned.\<close>

fun Update_loop :: "(string, string) gomap \<Rightarrow> (string, httputil_ReverseProxy) gomap
    \<Rightarrow> (string, httputil_ReverseProxy) gomap" where
  "Update_loop [] t = t"
| "Update_loop ((name, host) # rest) t =
     (if name = '''' \<or> host = '''' then Update_loop rest t
      else Update_loop rest (AList.update name (new_proxy host) t))"

definition Update :: "ReverseProxy \<Rightarrow> (string, string) gomap \<Rightarrow> ReverseProxy" where
  "Update r rts = r\<lparr>routes := Some (Update_loop rts [])\<rparr>"

definition GetProxy :: "ReverseProxy \<Rightarrow> string \<Rightarrow> httputil_ReverseProxy option" where
  "GetProxy r name = (case routes r of None \<Rightarrow> None | Some t \<Rightarrow> map_of t name)"

definition Names :: "ReverseProxy \<Rightarrow> string list" where
  "Names r =
     (case routes r of
        None \<Rightarrow> []
      | Some t \<Rightarrow> fold (\<lambda>(name, _) names. names @ [name]) t [])"

text \<open>The router as \<^verbatim>\<open>main\<close> creates it (\<^verbatim>\<open>&ReverseProxy{}\<close>), and after a run of updates.\<close>

definition router0 :: ReverseProxy where
  "router0 = \<lparr>routes = None\<rparr>"

definition after_updates :: "(string, string) gomap list \<Rightarrow> ReverseProxy" where
  "after_updates ms = fold (\<lambda>m r. Update r m) ms router0"

subsection \<open>The dispatch handler\<close>

text \<open>\<^verbatim>\<open>url.Values.Get\<close>: the first value of the key, the empty string when there is none.\<close>

definition Values_Get :: "(string \<rightharpoonup> string list) \<Rightarrow> string \<Rightarrow> string" where
  "Values_Get q k = (case q k of None \<Rightarrow> '''' | Some [] \<Rightarrow> '''' | Some (v # _) \<Rightarrow> v)"

datatype response = ServeHTTP httputil_ReverseProxy | StatusForbidden

definition dispatch :: "ReverseProxy \<Rightarrow> (string \<rightharpoonup> string list) \<Rightarrow> response" where
  "dispatch r q =
     (let name = Values_Get q ''forward''
      in case GetProxy r name of Some p \<Rightarrow> ServeHTTP p | None \<Rightarrow> StatusForbidden)"

subsection \<open>Update, statement by statement\<close>








subsection \<open>Example inputs\<close>

text \<open>A pointer to a record of the list, and a source whose collaborators answer every path
  alike: a modification time and what parsing the content gives.\<close>

definition entry_ptr :: "string \<Rightarrow> string \<Rightarrow> entry option" where
  "entry_ptr name dashboard = Some \<lparr>Name = name, Dashboard = dashboard\<rparr>"

definition world_of :: "time \<Rightarrow> error + entry option list \<Rightarrow> world" where
  "world_of mtime parsed =
     \<lparr>os_Stat = (\<lambda>_. Inr mtime),
      ioutil_ReadFile = (\<lambda>_. Inr ''content''),
      json_Unmarshal = (\<lambda>_. parsed)\<rparr>"

text \<open>A router that already serves one route.\<close>

definition old_router :: ReverseProxy where
  "old_router = \<lparr>routes = Some [(''old'', new_proxy ''h0:0'')]\<rparr>"

section \<open>Auxiliary facts\<close>

lemma update_fresh: "k \<notin> fst ` set al \<Longrightarrow> AList.update k v al = al @ [(k, v)]"
  by (induction al) auto

lemma Update_loop_append:
  "distinct (map fst m) \<Longrightarrow> fst ` set m \<inter> fst ` set t = {} \<Longrightarrow>
   Update_loop m t =
     t @ map (\<lambda>(name, host). (name, new_proxy host))
           (filter (\<lambda>(name, host). name \<noteq> '''' \<and> host \<noteq> '''') m)"
proof (induction m arbitrary: t)
  case Nil
  then show ?case by simp
next
  case (Cons e m)
  obtain name host where e: "e = (name, host)" by (cases e)
  from Cons.prems have d: "distinct (map fst m)" and fresh: "name \<notin> fst ` set t"
    and nm: "name \<notin> fst ` set m" and disj: "fst ` set m \<inter> fst ` set t = {}"
    by (auto simp: e)
  show ?case
  proof (cases "name = '''' \<or> host = ''''")
    case True
    then show ?thesis using Cons.IH [OF d disj] by (simp add: e)
  next
    case False
    have "fst ` set m \<inter> fst ` set (t @ [(name, new_proxy host)]) = {}"
      using disj nm by auto
    from Cons.IH [OF d this] False fresh show ?thesis
      by (simp add: e update_fresh)
  qed
qed

lemma Update_loop_Nil:
  "distinct (map fst m) \<Longrightarrow>
   Update_loop m [] =
     map (\<lambda>(name, host). (name, new_proxy host))
       (filter (\<lambda>(name, host). name \<noteq> '''' \<and> host \<noteq> '''') m)"
  using Update_loop_append [of m "[]"] by simp

lemma map_of_built:
  "distinct (map fst m) \<Longrightarrow>
   map_of (map (\<lambda>(name, host). (name, new_proxy host))
       (filter (\<lambda>(name, host). name \<noteq> '''' \<and> host \<noteq> '''') m)) name =
   (case map_of m name of
      None \<Rightarrow> None
    | Some host \<Rightarrow> if name = '''' \<or> host = '''' then None else Some (new_proxy host))"
proof (induction m)
  case Nil
  then show ?case by simp
next
  case (Cons e m)
  obtain n h where e: "e = (n, h)" by (cases e)
  from Cons.prems have nm: "map_of m n = None"
    by (simp add: e map_of_eq_None_iff)
  from Cons.prems have nm': "\<And>x. (n, x) \<notin> set m"
    by (force simp: e)
  from Cons show ?case
    by (auto simp: e nm nm' split: option.splits)
qed

lemma Names_fold: "fold (\<lambda>(name, _) names. names @ [name]) t acc = acc @ map fst t"
  by (induction t arbitrary: acc) (auto split: prod.splits)


lemma Names_None: "routes r = None \<Longrightarrow> Names r = []"
  by (simp add: Names_def)

lemma Update_loop_skips:
  "\<forall>(name, host) \<in> set m. name = '''' \<or> host = '''' \<Longrightarrow> Update_loop m t = t"
  by (induction m arbitrary: t) auto

lemma Update_loop_empty_name:
  "map_of t '''' = None \<Longrightarrow> map_of (Update_loop m t) '''' = None"
  by (induction m t rule: Update_loop.induct) (auto simp: update_conv')

lemma GetProxy_Update_empty_name: "GetProxy (Update r m) '''' = None"
  by (simp add: GetProxy_def Update_def Update_loop_empty_name)

lemma after_updates_empty_name: "GetProxy (after_updates ms) '''' = None"
proof (cases ms rule: rev_cases)
  case Nil
  then show ?thesis by (simp add: after_updates_def router0_def GetProxy_def)
next
  case (snoc ms' m)
  then show ?thesis by (simp add: after_updates_def GetProxy_Update_empty_name)
qed






lemma Load_loop_Some:
  "Load_loop (map Some list) m = Return (fold (\<lambda>e. AList.update (Name e) (Dashboard e)) list m)"
  by (induction list arbitrary: m) auto

lemma Load_loop_Return:
  "Load_loop es m = Return m' \<Longrightarrow> \<exists>list. es = map Some list"
proof (induction es m rule: Load_loop.induct)
  case (1 m)
  then show ?case by simp
next
  case (2 rest m)
  then show ?case by simp
next
  case (3 e rest m)
  then obtain list where "rest = map Some list" by auto
  then have "Some e # rest = map Some (e # list)" by simp
  then show ?case by (rule exI [of _ "e # list"])
qed

lemma GetProxy_Update:
  "distinct (map fst m) \<Longrightarrow>
   GetProxy (Update r m) name =
     (case map_of m name of
        None \<Rightarrow> None
      | Some host \<Rightarrow> if name = '''' \<or> host = '''' then None else Some (new_proxy host))"
  by (simp add: GetProxy_def Update_def Update_loop_Nil map_of_built)

lemma map_of_fold_update:
  "map_of (fold (\<lambda>e. AList.update (Name e) (Dashboard e)) list m) name =
     (if filter (\<lambda>e. Name e = name) list = [] then map_of m name
      else Some (Dashboard (last (filter (\<lambda>e. Name e = name) list))))"
  by (induction list arbitrary: m) (auto simp: update_conv')

lemma distinct_fold_update:
  "distinct (map fst m) \<Longrightarrow>
   distinct (map fst (fold (\<lambda>e. AList.update (Name e) (Dashboard e)) list m))"
  by (induction list arbitrary: m) (auto simp: distinct_update)

lemma keys_fold_update:
  "fst ` set (fold (\<lambda>e. AList.update (Name e) (Dashboard e)) list m) =
     fst ` set m \<union> Name ` set list"
  by (induction list arbitrary: m) (auto simp: dom_update)

lemma Load_cases:
  "Load w path = (res, cs) \<Longrightarrow>
   (\<exists>e. ioutil_ReadFile w path = Inl e \<and> res = Return (None, Some (Traced e)) \<and> cs = [CallReadFile])
   \<or> (\<exists>b e. ioutil_ReadFile w path = Inr b \<and> json_Unmarshal w b = Inl e
         \<and> res = Return (None, Some (Traced e)) \<and> cs = [CallReadFile, CallUnmarshal])
   \<or> (\<exists>b es. ioutil_ReadFile w path = Inr b \<and> json_Unmarshal w b = Inr es
         \<and> Load_loop es [] = Panic \<and> res = Panic \<and> cs = [CallReadFile, CallUnmarshal])
   \<or> (\<exists>b es m. ioutil_ReadFile w path = Inr b \<and> json_Unmarshal w b = Inr es
         \<and> Load_loop es [] = Return m \<and> res = Return (Some m, None)
         \<and> cs = [CallReadFile, CallUnmarshal])"
  by (auto simp: Load_def split: sum.splits outcome.splits)

lemma Reload_stat_error:
  "os_Stat w path = Inl e \<Longrightarrow> Reload w l path = (Return (None, Some (Traced e)), l, [CallStat])"
  by (simp add: Reload_def)

lemma Reload_unchanged:
  "os_Stat w path = Inr (last_time l) \<Longrightarrow> Reload w l path = (Return (None, None), l, [CallStat])"
  by (simp add: Reload_def)

lemma Reload_changed:
  "os_Stat w path = Inr mtime \<Longrightarrow> mtime \<noteq> last_time l \<Longrightarrow>
   Reload w l path =
     (case Load w path of
        (Panic, cs) \<Rightarrow> (Panic, l, CallStat # cs)
      | (Return (m, Some err), cs) \<Rightarrow> (Return (None, Some err), l, CallStat # cs)
      | (Return (m, None), cs) \<Rightarrow> (Return (m, None), l\<lparr>last_time := mtime\<rparr>, CallStat # cs))"
  by (simp add: Reload_def)

lemma Reload_cases:
  "Reload w l path = (res, l', cs) \<Longrightarrow>
   (\<exists>e. os_Stat w path = Inl e \<and> res = Return (None, Some (Traced e)) \<and> l' = l \<and> cs = [CallStat])
   \<or> (os_Stat w path = Inr (last_time l) \<and> res = Return (None, None) \<and> l' = l \<and> cs = [CallStat])
   \<or> (\<exists>mtime e. os_Stat w path = Inr mtime \<and> mtime \<noteq> last_time l
         \<and> ioutil_ReadFile w path = Inl e
         \<and> res = Return (None, Some (Traced e)) \<and> l' = l \<and> cs = [CallStat, CallReadFile])
   \<or> (\<exists>mtime b e. os_Stat w path = Inr mtime \<and> mtime \<noteq> last_time l
         \<and> ioutil_ReadFile w path = Inr b \<and> json_Unmarshal w b = Inl e
         \<and> res = Return (None, Some (Traced e)) \<and> l' = l
         \<and> cs = [CallStat, CallReadFile, CallUnmarshal])
   \<or> (\<exists>mtime b es. os_Stat w path = Inr mtime \<and> mtime \<noteq> last_time l
         \<and> ioutil_ReadFile w path = Inr b \<and> json_Unmarshal w b = Inr es
         \<and> Load_loop es [] = Panic \<and> res = Panic \<and> l' = l
         \<and> cs = [CallStat, CallReadFile, CallUnmarshal])
   \<or> (\<exists>mtime b es m. os_Stat w path = Inr mtime \<and> mtime \<noteq> last_time l
         \<and> ioutil_ReadFile w path = Inr b \<and> json_Unmarshal w b = Inr es
         \<and> Load_loop es [] = Return m \<and> res = Return (Some m, None)
         \<and> l' = l\<lparr>last_time := mtime\<rparr>
         \<and> cs = [CallStat, CallReadFile, CallUnmarshal])"
  by (auto simp: Reload_def Load_def split: sum.splits outcome.splits if_splits)

section \<open>The route table\<close>





text \<open>
  Claim C7. For every name, \<^verbatim>\<open>GetProxy\<close> answers \<^verbatim>\<open>nil\<close> when no snapshot was ever installed and
  when the name is not among the names of the current snapshot; when the snapshot binds the name
  to a target, it answers that target. \<^const>\<open>GetProxy\<close> has no failing branch: the source guards
  the nil map and reads a map, which cannot panic.
\<close>

theorem GetProxy_none_or_target:
  "(routes r = None \<longrightarrow> GetProxy r name = None)
   \<and> (name \<notin> set (Names r) \<longrightarrow> GetProxy r name = None)
   \<and> (routes r = Some t \<and> distinct (map fst t) \<and> (name, p) \<in> set t \<longrightarrow>
        GetProxy r name = Some p)"
  by (auto simp: GetProxy_def Names_def Names_fold map_of_eq_None_iff split: option.splits)

theorem GetProxy_none_or_target_witness:
  "routes router0 = None
   \<and> GetProxy router0 ''missing'' = None
   \<and> ''missing'' \<notin> set (Names old_router)
   \<and> GetProxy old_router ''missing'' = None
   \<and> routes old_router = Some [(''old'', new_proxy ''h0:0'')]
   \<and> distinct (map fst [(''old'', new_proxy ''h0:0'')])
   \<and> (''old'', new_proxy ''h0:0'') \<in> set [(''old'', new_proxy ''h0:0'')]
   \<and> GetProxy old_router ''old'' = Some (new_proxy ''h0:0'')"
  using GetProxy_none_or_target [of router0 "''missing''"]
    GetProxy_none_or_target
      [of old_router "''missing''"]
    GetProxy_none_or_target
      [of old_router "''old''" "[(''old'', new_proxy ''h0:0'')]" "new_proxy ''h0:0''"]
  by (simp add: router0_def old_router_def Names_def)

text \<open>
  Claim C9. In every state the route table reaches from the router \<^verbatim>\<open>main\<close> creates, by any
  sequence of \<^verbatim>\<open>Update\<close> calls with any mappings, the lookup of the empty name answers \<^verbatim>\<open>nil\<close>;
  so the dispatch handler answers 403 to a request whose \<^verbatim>\<open>forward\<close> parameter is absent, has
  no value, or has the empty string as its first value.
\<close>

theorem empty_name_is_never_routed:
  "GetProxy (after_updates ms) '''' = None
   \<and> dispatch (after_updates ms) (q(''forward'' := None)) = StatusForbidden
   \<and> dispatch (after_updates ms) (q(''forward'' \<mapsto> [])) = StatusForbidden
   \<and> dispatch (after_updates ms) (q(''forward'' \<mapsto> '''' # vs)) = StatusForbidden"
  by (simp add: dispatch_def Values_Get_def after_updates_empty_name)

text \<open>
  Claim C10. \<^verbatim>\<open>Update\<close> with a mapping that is empty, or all of whose entries have an empty name
  or an empty address, installs the empty snapshot whatever was installed before: afterwards
  every lookup answers \<^verbatim>\<open>nil\<close> and \<^verbatim>\<open>Names\<close> returns no name.
\<close>

theorem Update_without_valid_entries_erases_the_table:
  assumes "list_all (\<lambda>(name, host). name = '''' \<or> host = '''') m"
  shows "routes (Update r m) = Some []
       \<and> GetProxy (Update r m) name = None
       \<and> Names (Update r m) = []"
proof -
  from assms have "\<forall>(name, host) \<in> set m. name = '''' \<or> host = ''''"
    by (simp add: list_all_iff)
  then show ?thesis
    by (simp add: Update_def GetProxy_def Names_def Update_loop_skips)
qed

theorem Update_without_valid_entries_erases_the_table_witness:
  "list_all (\<lambda>(name, host). name = '''' \<or> host = '''') [('''', ''h1:1''), (''a'', '''')]
   \<and> GetProxy old_router ''old'' = Some (new_proxy ''h0:0'')
   \<and> routes (Update old_router [('''', ''h1:1''), (''a'', '''')]) = Some []
   \<and> GetProxy (Update old_router [('''', ''h1:1''), (''a'', '''')]) ''old'' = None
   \<and> Names (Update old_router [('''', ''h1:1''), (''a'', '''')]) = []
   \<and> list_all (\<lambda>(name, host). name = '''' \<or> host = '''') []
   \<and> GetProxy (Update old_router []) ''old'' = None
   \<and> Names (Update old_router []) = []"
  using Update_without_valid_entries_erases_the_table
      [of "[('''', ''h1:1''), (''a'', '''')]" old_router "''old''"]
    Update_without_valid_entries_erases_the_table [of "[]" old_router "''old''"]
  by (simp add: old_router_def GetProxy_def)

section \<open>The loader\<close>

text \<open>
  Claim C3. The remembered modification time advances only on a fully successful load. For
  every call of \<^verbatim>\<open>Reload\<close>: when the source cannot be inspected, when it cannot be read, when
  its content does not parse, when the call returns an error or panics, the loader is exactly
  what it was before the call; when a mapping is returned, the remembered time is the one just
  observed; and the loader changes only when a mapping is returned.
\<close>

theorem Reload_timestamp_advances_only_on_success:
  assumes "Reload w l path = (res, l', cs)"
  shows "(\<forall>e. os_Stat w path = Inl e \<longrightarrow> l' = l)
       \<and> (\<forall>e. ioutil_ReadFile w path = Inl e \<longrightarrow> l' = l)
       \<and> (\<forall>b e. ioutil_ReadFile w path = Inr b \<and> json_Unmarshal w b = Inl e \<longrightarrow> l' = l)
       \<and> (\<forall>x e. res = Return (x, Some e) \<longrightarrow> l' = l)
       \<and> (res = Panic \<longrightarrow> l' = l)
       \<and> (\<forall>m. res = Return (Some m, None) \<longrightarrow> os_Stat w path = Inr (last_time l'))
       \<and> (l' \<noteq> l \<longrightarrow> (\<exists>m. res = Return (Some m, None)))"
  using Reload_cases [OF assms] by auto

text \<open>A source that does not parse leaves the time at 0; one that parses moves it to 5.\<close>

theorem Reload_timestamp_advances_only_on_success_witness:
  "Reload (world_of 5 (Inl (Cause ''syntax''))) \<lparr>last_time = 0\<rparr> ''dashboards'' =
     (Return (None, Some (Traced (Cause ''syntax''))), \<lparr>last_time = 0\<rparr>,
      [CallStat, CallReadFile, CallUnmarshal])
   \<and> Reload (world_of 5 (Inr [entry_ptr ''b'' ''h2:2''])) \<lparr>last_time = 0\<rparr> ''dashboards'' =
     (Return (Some [(''b'', ''h2:2'')], None), \<lparr>last_time = 5\<rparr>,
      [CallStat, CallReadFile, CallUnmarshal])
   \<and> os_Stat (world_of 5 (Inr [entry_ptr ''b'' ''h2:2''])) ''dashboards'' =
       Inr (last_time \<lparr>last_time = 5\<rparr>)"
  using Reload_timestamp_advances_only_on_success
      [of "world_of 5 (Inl (Cause ''syntax''))" "\<lparr>last_time = 0\<rparr>" "''dashboards''"
          "Return (None, Some (Traced (Cause ''syntax'')))" "\<lparr>last_time = 0\<rparr>"
          "[CallStat, CallReadFile, CallUnmarshal]"]
    Reload_timestamp_advances_only_on_success
      [of "world_of 5 (Inr [entry_ptr ''b'' ''h2:2''])" "\<lparr>last_time = 0\<rparr>" "''dashboards''"
          "Return (Some [(''b'', ''h2:2'')], None)" "\<lparr>last_time = 5\<rparr>"
          "[CallStat, CallReadFile, CallUnmarshal]"]
  by (simp add: Reload_def Load_def world_of_def entry_ptr_def)

text \<open>
  Claim C4. When the modification time of the source equals the remembered one, \<^verbatim>\<open>Reload\<close>
  returns the nil mapping with the nil error and calls \<^verbatim>\<open>os.Stat\<close> only. So when a call of
  \<^verbatim>\<open>Reload\<close> returns without an error, the next call on the unmodified source returns
  "nothing changed", and neither reads nor parses the content.
\<close>

theorem Reload_unchanged_source_is_nothing_changed:
  "(os_Stat w path = Inr (last_time l) \<longrightarrow>
      Reload w l path = (Return (None, None), l, [CallStat]))
   \<and> (Reload w l path = (Return (x, None), l', cs) \<longrightarrow>
      Reload w l' path = (Return (None, None), l', [CallStat]))"
proof (intro conjI impI)
  assume "os_Stat w path = Inr (last_time l)"
  then show "Reload w l path = (Return (None, None), l, [CallStat])"
    by (rule Reload_unchanged)
next
  assume "Reload w l path = (Return (x, None), l', cs)"
  from Reload_cases [OF this] have "os_Stat w path = Inr (last_time l')"
    by auto
  then show "Reload w l' path = (Return (None, None), l', [CallStat])"
    by (rule Reload_unchanged)
qed

theorem Reload_unchanged_source_is_nothing_changed_witness:
  "os_Stat (world_of 5 (Inr [entry_ptr ''b'' ''h2:2''])) ''dashboards'' =
       Inr (last_time \<lparr>last_time = 5\<rparr>)
   \<and> Reload (world_of 5 (Inr [entry_ptr ''b'' ''h2:2''])) \<lparr>last_time = 0\<rparr> ''dashboards'' =
     (Return (Some [(''b'', ''h2:2'')], None), \<lparr>last_time = 5\<rparr>,
      [CallStat, CallReadFile, CallUnmarshal])
   \<and> Reload (world_of 5 (Inr [entry_ptr ''b'' ''h2:2''])) \<lparr>last_time = 5\<rparr> ''dashboards'' =
     (Return (None, None), \<lparr>last_time = 5\<rparr>, [CallStat])"
  using Reload_unchanged_source_is_nothing_changed
      [of "world_of 5 (Inr [entry_ptr ''b'' ''h2:2''])" "''dashboards''" "\<lparr>last_time = 0\<rparr>"
          "Some [(''b'', ''h2:2'')]" "\<lparr>last_time = 5\<rparr>"
          "[CallStat, CallReadFile, CallUnmarshal]"]
  by (simp add: Reload_def Load_def world_of_def entry_ptr_def)

text \<open>
  Claim C5, as amended. For every source that \<^verbatim>\<open>Reload\<close> parses and returns a mapping for, the
  mapping excludes no record: its names are the names of all the records of the list, the empty
  name and the names of records with an empty address among them, each bound to the address of
  its last record. The entries with an empty name or an empty address are left out later, by
  \<^verbatim>\<open>Update\<close>: the table installed from the mapping answers no lookup of the empty name, of a
  name the mapping binds to the empty address, or with a target of an empty address.
\<close>

theorem Reload_keeps_every_record_and_Update_drops_the_invalid:
  assumes "Reload w l path = (Return (Some m, None), l', cs)"
  shows "\<exists>b list. ioutil_ReadFile w path = Inr b \<and> json_Unmarshal w b = Inr (map Some list)
       \<and> distinct (map fst m) \<and> fst ` set m = Name ` set list
       \<and> (\<forall>name. map_of m name =
            (if filter (\<lambda>e. Name e = name) list = [] then None
             else Some (Dashboard (last (filter (\<lambda>e. Name e = name) list)))))
       \<and> (\<forall>r name p. GetProxy (Update r m) name = Some p \<longrightarrow>
            name \<noteq> '''' \<and> map_of m name \<noteq> Some '''' \<and> Host (target p) \<noteq> '''')"
proof -
  from Reload_cases [OF assms] obtain b es where
    b: "ioutil_ReadFile w path = Inr b" and es: "json_Unmarshal w b = Inr es"
    and loop: "Load_loop es [] = Return m"
    by auto
  from Load_loop_Return [OF loop] obtain list where list: "es = map Some list" by blast
  from loop have m: "m = fold (\<lambda>e. AList.update (Name e) (Dashboard e)) list []"
    by (simp add: list Load_loop_Some)
  have d: "distinct (map fst m)"
    unfolding m by (rule distinct_fold_update) simp
  have k: "fst ` set m = Name ` set list"
    unfolding m by (simp add: keys_fold_update)
  have v: "\<forall>name. map_of m name =
            (if filter (\<lambda>e. Name e = name) list = [] then None
             else Some (Dashboard (last (filter (\<lambda>e. Name e = name) list))))"
    unfolding m by (simp add: map_of_fold_update)
  have t: "\<forall>r name p. GetProxy (Update r m) name = Some p \<longrightarrow>
            name \<noteq> '''' \<and> map_of m name \<noteq> Some '''' \<and> Host (target p) \<noteq> ''''"
    by (auto simp: GetProxy_Update [OF d] new_proxy_def NewSingleHostReverseProxy_def
        split: option.splits if_splits)
  from b es list d k v t show ?thesis by blast
qed

text \<open>The records \<open>[{"", "h1:1"}, {"a", ""}, {"b", "h2:2"}]\<close>: returned whole, filtered by
  \<^verbatim>\<open>Update\<close>.\<close>

theorem Reload_keeps_every_record_and_Update_drops_the_invalid_witness:
  "Reload (world_of 5 (Inr [entry_ptr '''' ''h1:1'', entry_ptr ''a'' '''', entry_ptr ''b'' ''h2:2'']))
       \<lparr>last_time = 0\<rparr> ''dashboards'' =
     (Return (Some [('''', ''h1:1''), (''a'', ''''), (''b'', ''h2:2'')], None), \<lparr>last_time = 5\<rparr>,
      [CallStat, CallReadFile, CallUnmarshal])
   \<and> distinct (map fst [('''', ''h1:1''), (''a'', ''''), (''b'', ''h2:2'')])
   \<and> GetProxy (Update router0 [('''', ''h1:1''), (''a'', ''''), (''b'', ''h2:2'')]) '''' = None
   \<and> GetProxy (Update router0 [('''', ''h1:1''), (''a'', ''''), (''b'', ''h2:2'')]) ''a'' = None
   \<and> GetProxy (Update router0 [('''', ''h1:1''), (''a'', ''''), (''b'', ''h2:2'')]) ''b'' =
       Some (new_proxy ''h2:2'')"
proof -
  have h: "Reload (world_of 5 (Inr [entry_ptr '''' ''h1:1'', entry_ptr ''a'' '''', entry_ptr ''b'' ''h2:2'']))
       \<lparr>last_time = 0\<rparr> ''dashboards'' =
     (Return (Some [('''', ''h1:1''), (''a'', ''''), (''b'', ''h2:2'')], None), \<lparr>last_time = 5\<rparr>,
      [CallStat, CallReadFile, CallUnmarshal])"
    by (simp add: Reload_def Load_def world_of_def entry_ptr_def)
  from Reload_keeps_every_record_and_Update_drops_the_invalid [OF h]
  have d: "distinct (map fst [('''', ''h1:1''), (''a'', ''''), (''b'', ''h2:2'')])"
    by blast
  from h d show ?thesis
    by (simp add: GetProxy_def Update_def)
qed

text \<open>
  Claim C5 as stated fails: for the records \<open>[{"", "h1:1"}, {"a", ""}, {"b", "h2:2"}]\<close> the
  mapping \<^verbatim>\<open>Reload\<close> returns binds the empty name, and binds \<open>a\<close> to the empty address.
\<close>

theorem Reload_mapping_counterexample:
  "fst (Reload (world_of 5 (Inr [entry_ptr '''' ''h1:1'', entry_ptr ''a'' '''', entry_ptr ''b'' ''h2:2'']))
       \<lparr>last_time = 0\<rparr> ''dashboards'') =
     Return (Some [('''', ''h1:1''), (''a'', ''''), (''b'', ''h2:2'')], None)
   \<and> map_of [('''', ''h1:1''), (''a'', ''''), (''b'', ''h2:2'')] '''' = Some ''h1:1''
   \<and> map_of [('''', ''h1:1''), (''a'', ''''), (''b'', ''h2:2'')] ''a'' = Some ''''"
  by (simp add: Reload_def Load_def world_of_def entry_ptr_def)

text \<open>
  Claim C6, as amended. When the list has records with a given name and \<^verbatim>\<open>Load\<close> parses it, the
  mapping \<^verbatim>\<open>Load\<close> builds binds that name to the address of the last such record in list order.
  The table installed from the mapping binds the name to the target for that address when the
  name and that address are non-empty; when the address of the last record is empty the table
  has no entry for the name, whatever the earlier records say.
\<close>

theorem Load_last_record_wins:
  assumes "ioutil_ReadFile w path = Inr b" and "json_Unmarshal w b = Inr (map Some list)"
    and "filter (\<lambda>e. Name e = name) list \<noteq> []"
  shows "\<exists>m. Load w path = (Return (Some m, None), [CallReadFile, CallUnmarshal])
       \<and> map_of m name = Some (Dashboard (last (filter (\<lambda>e. Name e = name) list)))
       \<and> GetProxy (Update r m) name =
           (if name = '''' \<or> Dashboard (last (filter (\<lambda>e. Name e = name) list)) = '''' then None
            else Some (new_proxy (Dashboard (last (filter (\<lambda>e. Name e = name) list)))))"
proof -
  let ?m = "fold (\<lambda>e. AList.update (Name e) (Dashboard e)) list []"
  have 1: "Load w path = (Return (Some ?m, None), [CallReadFile, CallUnmarshal])"
    using assms(1,2) by (simp add: Load_def Load_loop_Some)
  have 2: "map_of ?m name = Some (Dashboard (last (filter (\<lambda>e. Name e = name) list)))"
    using assms(3) by (simp add: map_of_fold_update)
  have d: "distinct (map fst ?m)"
    by (rule distinct_fold_update) simp
  have 3: "GetProxy (Update r ?m) name =
           (if name = '''' \<or> Dashboard (last (filter (\<lambda>e. Name e = name) list)) = '''' then None
            else Some (new_proxy (Dashboard (last (filter (\<lambda>e. Name e = name) list)))))"
    by (simp add: GetProxy_Update [OF d] 2)
  from 1 2 3 show ?thesis by blast
qed

text \<open>The records \<open>[{"a", "h1:1"}, {"a", "h2:2"}]\<close>: the lookup of \<open>a\<close> yields the target for
  \<open>h2:2\<close>.\<close>

theorem Load_last_record_wins_witness:
  "ioutil_ReadFile (world_of 5 (Inr [entry_ptr ''a'' ''h1:1'', entry_ptr ''a'' ''h2:2''])) ''dashboards'' =
     Inr ''content''
   \<and> json_Unmarshal (world_of 5 (Inr [entry_ptr ''a'' ''h1:1'', entry_ptr ''a'' ''h2:2''])) ''content'' =
     Inr (map Some [\<lparr>Name = ''a'', Dashboard = ''h1:1''\<rparr>, \<lparr>Name = ''a'', Dashboard = ''h2:2''\<rparr>])
   \<and> filter (\<lambda>e. Name e = ''a'')
       [\<lparr>Name = ''a'', Dashboard = ''h1:1''\<rparr>, \<lparr>Name = ''a'', Dashboard = ''h2:2''\<rparr>] \<noteq> []
   \<and> Load (world_of 5 (Inr [entry_ptr ''a'' ''h1:1'', entry_ptr ''a'' ''h2:2''])) ''dashboards'' =
       (Return (Some [(''a'', ''h2:2'')], None), [CallReadFile, CallUnmarshal])
   \<and> GetProxy (Update router0 [(''a'', ''h2:2'')]) ''a'' = Some (new_proxy ''h2:2'')"
proof -
  let ?w = "world_of 5 (Inr [entry_ptr ''a'' ''h1:1'', entry_ptr ''a'' ''h2:2''])"
  let ?list = "[\<lparr>Name = ''a'', Dashboard = ''h1:1''\<rparr>, \<lparr>Name = ''a'', Dashboard = ''h2:2''\<rparr>]"
  have 1: "ioutil_ReadFile ?w ''dashboards'' = Inr ''content''"
    by (simp add: world_of_def)
  have 2: "json_Unmarshal ?w ''content'' = Inr (map Some ?list)"
    by (simp add: world_of_def entry_ptr_def)
  have 3: "filter (\<lambda>e. Name e = ''a'') ?list \<noteq> []"
    by simp
  have 4: "Load ?w ''dashboards'' = (Return (Some [(''a'', ''h2:2'')], None), [CallReadFile, CallUnmarshal])"
    by (simp add: Load_def world_of_def entry_ptr_def)
  from Load_last_record_wins [OF 1 2 3, of router0] 4
  have 5: "GetProxy (Update router0 [(''a'', ''h2:2'')]) ''a'' = Some (new_proxy ''h2:2'')"
    by simp
  from 1 2 3 4 5 show ?thesis by blast
qed

text \<open>
  Claim C6 as stated fails for the installed table: for the records
  \<open>[{"a", "h1:1"}, {"a", ""}]\<close> the mapping binds \<open>a\<close> to the empty address of the last record,
  \<^verbatim>\<open>Update\<close> skips that entry, and the lookup of \<open>a\<close> answers \<^verbatim>\<open>nil\<close>.
\<close>

theorem installed_table_last_record_counterexample:
  "Load (world_of 5 (Inr [entry_ptr ''a'' ''h1:1'', entry_ptr ''a'' ''''])) ''dashboards'' =
     (Return (Some [(''a'', '''')], None), [CallReadFile, CallUnmarshal])
   \<and> GetProxy (Update router0 [(''a'', '''')]) ''a'' = None"
  by (simp add: Load_def world_of_def entry_ptr_def GetProxy_def Update_def)

text \<open>
  Claim C8, as amended. When the content of the source does not parse, \<^verbatim>\<open>Reload\<close> returns the
  error and leaves the loader as it was, having read and parsed the content. So while the source
  keeps the same bad content and modification time, every later \<^verbatim>\<open>Reload\<close> starts from the same
  loader, reads and parses the content again and fails alike: the content is reprocessed in
  each cycle until it parses. Whenever the observed modification time differs from the
  remembered one, as after an edit, \<^verbatim>\<open>Reload\<close> reads the source.
\<close>

theorem Reload_retries_malformed_source:
  assumes "os_Stat w path = Inr mtime" and "mtime \<noteq> last_time l"
    and "ioutil_ReadFile w path = Inr b" and "json_Unmarshal w b = Inl e"
    and "os_Stat w' path = Inr mtime'" and "mtime' \<noteq> last_time l"
  shows "Reload w l path =
           (Return (None, Some (Traced e)), l, [CallStat, CallReadFile, CallUnmarshal])
       \<and> ((\<lambda>l. fst (snd (Reload w l path))) ^^ n) l = l
       \<and> CallReadFile \<in> set (snd (snd (Reload w' l path)))"
proof -
  have 1: "Reload w l path =
           (Return (None, Some (Traced e)), l, [CallStat, CallReadFile, CallUnmarshal])"
    using assms(1-4) by (simp add: Reload_def Load_def)
  have 2: "((\<lambda>l. fst (snd (Reload w l path))) ^^ n) l = l"
    by (induction n) (simp_all add: 1)
  obtain res l' cs where r: "Reload w' l path = (res, l', cs)"
    by (cases "Reload w' l path") auto
  from Reload_cases [OF r] assms(5,6) have "CallReadFile \<in> set cs"
    by auto
  with 1 2 r show ?thesis by simp
qed

text \<open>A source that does not parse, polled three times, then edited into one that parses.\<close>

theorem Reload_retries_malformed_source_witness:
  "os_Stat (world_of 5 (Inl (Cause ''syntax''))) ''dashboards'' = Inr 5
   \<and> (5::int) \<noteq> last_time \<lparr>last_time = 0\<rparr>
   \<and> ioutil_ReadFile (world_of 5 (Inl (Cause ''syntax''))) ''dashboards'' = Inr ''content''
   \<and> json_Unmarshal (world_of 5 (Inl (Cause ''syntax''))) ''content'' = Inl (Cause ''syntax'')
   \<and> os_Stat (world_of 6 (Inr [entry_ptr ''b'' ''h2:2''])) ''dashboards'' = Inr 6
   \<and> (6::int) \<noteq> last_time \<lparr>last_time = 0\<rparr>
   \<and> Reload (world_of 5 (Inl (Cause ''syntax''))) \<lparr>last_time = 0\<rparr> ''dashboards'' =
       (Return (None, Some (Traced (Cause ''syntax''))), \<lparr>last_time = 0\<rparr>,
        [CallStat, CallReadFile, CallUnmarshal])
   \<and> ((\<lambda>l. fst (snd (Reload (world_of 5 (Inl (Cause ''syntax''))) l ''dashboards''))) ^^ 3)
        \<lparr>last_time = 0\<rparr> = \<lparr>last_time = 0\<rparr>
   \<and> CallReadFile \<in> set (snd (snd
        (Reload (world_of 6 (Inr [entry_ptr ''b'' ''h2:2''])) \<lparr>last_time = 0\<rparr> ''dashboards'')))"
proof -
  let ?w = "world_of 5 (Inl (Cause ''syntax''))"
  let ?w' = "world_of 6 (Inr [entry_ptr ''b'' ''h2:2''])"
  have 1: "os_Stat ?w ''dashboards'' = Inr 5"
    and 2: "(5::int) \<noteq> last_time \<lparr>last_time = 0\<rparr>"
    and 3: "ioutil_ReadFile ?w ''dashboards'' = Inr ''content''"
    and 4: "json_Unmarshal ?w ''content'' = Inl (Cause ''syntax'')"
    and 5: "os_Stat ?w' ''dashboards'' = Inr 6"
    and 6: "(6::int) \<noteq> last_time \<lparr>last_time = 0\<rparr>"
    by (simp_all add: world_of_def)
  from 1 2 3 4 5 6 Reload_retries_malformed_source [OF 1 2 3 4 5 6, of 3]
  show ?thesis by blast
qed

text \<open>
  Claim C8 as stated fails: it has the unchanged bad content not reprocessed after the failure.
  With the source and its modification time unchanged, the second \<^verbatim>\<open>Reload\<close> reads and parses
  the content again and returns the error again, not "nothing changed".
\<close>

theorem Reload_malformed_source_counterexample:
  "Reload (world_of 5 (Inl (Cause ''syntax''))) \<lparr>last_time = 0\<rparr> ''dashboards'' =
     (Return (None, Some (Traced (Cause ''syntax''))), \<lparr>last_time = 0\<rparr>,
      [CallStat, CallReadFile, CallUnmarshal])
   \<and> Reload (world_of 5 (Inl (Cause ''syntax'')))
       (fst (snd (Reload (world_of 5 (Inl (Cause ''syntax''))) \<lparr>last_time = 0\<rparr> ''dashboards'')))
       ''dashboards'' =
     (Return (None, Some (Traced (Cause ''syntax''))), \<lparr>last_time = 0\<rparr>,
      [CallStat, CallReadFile, CallUnmarshal])"
  by (simp add: Reload_def Load_def world_of_def)

end
